theory Spec2Isabelle
  imports Main "HOL-Library.Sublist"
begin

section \<open>The data-loading cells of the demand notebook\<close>

text \<open>
  The notebook \<^verbatim>\<open>Analysis-checkpoint.ipynb\<close> has three cells that do work:
  \<^verbatim>\<open>
  DATA_FOLDER = "./data/raw_data/"
  csv_files = glob.glob(os.path.join(DATA_FOLDER, "*.csv"))

  def add_file_name(path: str) -> pd.DataFrame:
      df = pd.read_csv(path, skiprows=8)
      df["file_name"] = path
      return df

  all_dataframes = []
  for file in tqdm(csv_files, desc="Reading CSVs"):
      try:
          df = add_file_name(file)
          all_dataframes.append(df)
      except Exception as e:
          print(f"Failed to read {file}: {e}")

  full_df = pd.concat(all_dataframes, ignore_index=True)
  \<close>
  The specification calls the first \<open>discover\<close>, the function \<open>parse\<close> and the three
  together \<open>build\<close>. The cells read a directory and files, so the model takes the state
  of the file system as an argument; exceptions are values of a sum type; what the loop
  prints is returned next to its result.
\<close>

subsection \<open>File system, exceptions, tables\<close>

datatype content = Lines "string list" | Undecodable

text \<open>
  \<open>listing\<close> is what \<^verbatim>\<open>os.scandir\<close> yields for a directory path, in the order the
  system enumerates it, and \<open>None\<close> where it raises \<^verbatim>\<open>OSError\<close> (no such directory).
  \<open>contents\<close> is what opening a path for reading yields: the decoded lines of the file
  without their terminators, \<open>Undecodable\<close> for bytes that are not text in the
  expected encoding, \<open>None\<close> where \<^verbatim>\<open>open\<close> raises \<^verbatim>\<open>OSError\<close>.
\<close>

record filesystem =
  listing :: "string \<rightharpoonup> string list"
  contents :: "string \<rightharpoonup> content"

datatype exn =
    OSError string
  | UnicodeDecodeError
  | EmptyDataError
  | ParserError nat nat nat
  | ValueError string

text \<open>
  A cell that comes from a field of a file is identified with the text of that field:
  the value pandas converts the text to (a number, a string) is a function of the text and
  is not modelled. \<open>NaN\<close> is the missing-value marker: the cell of an empty field, of a
  field holding one of the tokens pandas reads as missing, and of a cell no field stands
  behind.
  A row label is its position (\<^verbatim>\<open>RangeIndex\<close>) or the leading fields pandas moved into
  the index.
\<close>

datatype cell = Text string | NaN

datatype label = Pos nat | Key "cell list"

record frame =
  columns :: "string list"
  index :: "label list"
  rows :: "cell list list"

datatype message = Failed_to_read string exn

subsection \<open>Paths and \<^verbatim>\<open>glob\<close>\<close>

text \<open>\<^verbatim>\<open>os.path\<close> is modelled as \<^verbatim>\<open>posixpath\<close>, on two components.\<close>

definition os_path_join :: "string \<Rightarrow> string \<Rightarrow> string" where
  "os_path_join a b =
     (if take 1 b = ''/'' then b
      else if a = [] \<or> last a = CHR ''/'' then a @ b
      else a @ ''/'' @ b)"

definition os_path_split :: "string \<Rightarrow> string \<times> string" where
  "os_path_split p =
     (let tail = rev (takeWhile (\<lambda>c. c \<noteq> CHR ''/'') (rev p));
          head = rev (dropWhile (\<lambda>c. c \<noteq> CHR ''/'') (rev p))
      in if head \<noteq> [] \<and> \<not> list_all (\<lambda>c. c = CHR ''/'') head
         then (rev (dropWhile (\<lambda>c. c = CHR ''/'') (rev head)), tail)
         else (head, tail))"

text \<open>
  \<^verbatim>\<open>fnmatch\<close> on patterns made of literal characters, \<^verbatim>\<open>*\<close> and \<^verbatim>\<open>?\<close>
  (the notebook's pattern has no bracket expression). First argument: the name.
\<close>

fun fnmatch :: "string \<Rightarrow> string \<Rightarrow> bool" where
  "fnmatch [] [] = True"
| "fnmatch (x # xs) [] = False"
| "fnmatch [] (p # ps) = (p = CHR ''*'' \<and> fnmatch [] ps)"
| "fnmatch (x # xs) (p # ps) =
     (if p = CHR ''*'' then fnmatch (x # xs) ps \<or> fnmatch xs (p # ps)
      else (p = CHR ''?'' \<or> p = x) \<and> fnmatch xs ps)"

definition ishidden :: "string \<Rightarrow> bool" where
  "ishidden name = (take 1 name = ''.'')"

text \<open>
  \<^verbatim>\<open>glob._glob1\<close>: list the directory, swallowing \<^verbatim>\<open>OSError\<close>; unless the pattern
  itself starts with a dot, drop the names that do; keep the names the pattern matches.
\<close>

definition glob1 :: "filesystem \<Rightarrow> string \<Rightarrow> string \<Rightarrow> string list" where
  "glob1 fs dirname pattern =
     (case listing fs dirname of
        None \<Rightarrow> []
      | Some names \<Rightarrow>
          filter (\<lambda>x. fnmatch x pattern)
            (if ishidden pattern then names else filter (\<lambda>x. \<not> ishidden x) names))"

definition DATA_FOLDER :: string where
  "DATA_FOLDER = ''./data/raw_data/''"

text \<open>
  \<^verbatim>\<open>glob.glob\<close> on a pattern whose directory part is non-empty and has no wildcard and
  whose last component has one: split the pattern, match the names of that one directory
  (no descent into subdirectories), join each to the directory part.
\<close>

definition csv_files :: "filesystem \<Rightarrow> string list" where
  "csv_files fs =
     (let pathname = os_path_join DATA_FOLDER ''*.csv'';
          (dirname, basename) = os_path_split pathname
      in map (os_path_join dirname) (glob1 fs dirname basename))"

subsection \<open>\<^verbatim>\<open>pd.read_csv(path, skiprows=8)\<close>\<close>

text \<open>
  The reader with its default arguments. Fields are separated by commas and kept as
  written (no whitespace is removed), except that an empty field and the default
  missing-value tokens are read as missing; after the skipped lines, lines that are
  empty or hold only spaces and tabs are ignored; the first line left is the header,
  and no line left raises \<^verbatim>\<open>EmptyDataError\<close>. The width of the table is that of the
  header or of the first data row if that one is longer, whose extra leading fields then
  label the rows; a shorter row is filled up with missing values, a longer one raises
  \<^verbatim>\<open>ParserError\<close> with the width, the file's line number and the row's field count.

  Two things pandas does are outside this model, and every statement below that depends
  on them excludes them by a hypothesis. First, a quote character opens a field that
  runs across commas and line ends, also inside the skipped lines, so that the lines
  pandas skips and splits are then not the lines of the file: the model describes the
  reader on files all of whose lines are \<open>plain\<close>. Second, pandas renames empty and
  repeated header names: the model takes the names as written, which is what pandas
  does for a header of non-empty, pairwise distinct names.
\<close>

definition plain :: "string \<Rightarrow> bool" where
  "plain l = list_all (\<lambda>c. c \<noteq> CHR 0x22 \<and> c \<noteq> CHR 0x0D \<and> c \<noteq> CHR 0x0A) l"

definition na_values :: "string list" where
  "na_values =
     [[], ''#N/A'', ''#N/A N/A'', ''#NA'', ''-1.#IND'', ''-1.#QNAN'', ''-NaN'', ''-nan'',
      ''1.#IND'', ''1.#QNAN'', ''<NA>'', ''N/A'', ''NA'', ''NULL'', ''NaN'', ''None'',
      ''n/a'', ''nan'', ''null'']"

definition cell_of :: "string \<Rightarrow> cell" where
  "cell_of s = (if s \<in> set na_values then NaN else Text s)"

definition blank :: "string \<Rightarrow> bool" where
  "blank l = list_all (\<lambda>c. c = CHR '' '' \<or> c = CHR 0x09) l"

fun split_on :: "char \<Rightarrow> string \<Rightarrow> string list" where
  "split_on d [] = [[]]"
| "split_on d (c # cs) =
     (if c = d then [] # split_on d cs
      else (case split_on d cs of [] \<Rightarrow> [[c]] | w # ws \<Rightarrow> (c # w) # ws))"

definition fields :: "string \<Rightarrow> string list" where
  "fields l = split_on CHR '','' l"

definition pad :: "nat \<Rightarrow> cell list \<Rightarrow> cell list" where
  "pad w r = r @ replicate (w - length r) NaN"

definition numbered :: "string list \<Rightarrow> (nat \<times> string) list" where
  "numbered ls = zip [1..<Suc (length ls)] ls"

definition parse_lines :: "(nat \<times> string) list \<Rightarrow> exn + frame" where
  "parse_lines nls =
     (case filter (\<lambda>(n, l). \<not> blank l) nls of
        [] \<Rightarrow> Inl EmptyDataError
      | (_, h) # body \<Rightarrow>
          (let names = fields h;
               recs = map (\<lambda>(n, l). (n, map cell_of (fields l))) body;
               w = (case recs of [] \<Rightarrow> length names
                    | (_, r) # _ \<Rightarrow> max (length names) (length r));
               lead = w - length names
           in case find (\<lambda>(n, r). w < length r) recs of
                Some (n, r) \<Rightarrow> Inl (ParserError w n (length r))
              | None \<Rightarrow>
                  Inr \<lparr>columns = names,
                       index = (if lead = 0 then map Pos [0..<length recs]
                                else map (\<lambda>(n, r). Key (take lead (pad w r))) recs),
                       rows = map (\<lambda>(n, r). drop lead (pad w r)) recs\<rparr>))"

definition read_csv :: "filesystem \<Rightarrow> string \<Rightarrow> nat \<Rightarrow> exn + frame" where
  "read_csv fs path skiprows =
     (case contents fs path of
        None \<Rightarrow> Inl (OSError path)
      | Some Undecodable \<Rightarrow> Inl UnicodeDecodeError
      | Some (Lines ls) \<Rightarrow> parse_lines (drop skiprows (numbered ls)))"

subsection \<open>\<^verbatim>\<open>add_file_name\<close>, the reading loop, \<^verbatim>\<open>pd.concat\<close>\<close>

text \<open>
  \<^verbatim>\<open>df[key] = v\<close> with a scalar \<open>v\<close>: every column carrying the label \<open>key\<close> is set
  to \<open>v\<close> on every row; if there is none, a new last column is added.
\<close>

definition setitem :: "frame \<Rightarrow> string \<Rightarrow> cell \<Rightarrow> frame" where
  "setitem df key v =
     (if key \<in> set (columns df)
      then df\<lparr>rows := map (\<lambda>r. map (\<lambda>(c, x). if c = key then v else x) (zip (columns df) r))
                          (rows df)\<rparr>
      else df\<lparr>columns := columns df @ [key], rows := map (\<lambda>r. r @ [v]) (rows df)\<rparr>)"

definition add_file_name :: "filesystem \<Rightarrow> string \<Rightarrow> exn + frame" where
  "add_file_name fs path =
     (case read_csv fs path 8 of
        Inl e \<Rightarrow> Inl e
      | Inr df \<Rightarrow> Inr (setitem df ''file_name'' (Text path)))"

text \<open>
  The loop, with its two accumulators: the list \<^verbatim>\<open>all_dataframes\<close> and the lines
  printed so far. A printed line is kept as the two values its format string
  interpolates. Every exception of \<open>exn\<close> derives from \<^verbatim>\<open>Exception\<close>, so the handler
  takes them all. The progress bar is display only, and so are the count the first cell
  prints and the summary the last one prints.
\<close>

fun read_all ::
  "filesystem \<Rightarrow> string list \<Rightarrow> frame list \<times> message list \<Rightarrow> frame list \<times> message list"
where
  "read_all fs [] st = st"
| "read_all fs (file # rest) (all_dataframes, out) =
     (case add_file_name fs file of
        Inr df \<Rightarrow> read_all fs rest (all_dataframes @ [df], out)
      | Inl e \<Rightarrow> read_all fs rest (all_dataframes, out @ [Failed_to_read file e]))"

text \<open>
  \<^verbatim>\<open>pd.concat(objs, ignore_index=True)\<close>: no object raises \<^verbatim>\<open>ValueError\<close>; otherwise
  the columns are the union of the objects' columns in order of first appearance, the rows
  are the objects' rows in order, each laid out on the union with missing values where
  its table has no such column, and the labels are the positions.
\<close>

definition union_indexes :: "string list list \<Rightarrow> string list" where
  "union_indexes css = fold (\<lambda>c acc. if c \<in> set acc then acc else acc @ [c]) (concat css) []"

definition record_of :: "string list \<Rightarrow> cell list \<Rightarrow> string \<Rightarrow> cell" where
  "record_of cols r c = (case map_of (zip cols r) c of Some v \<Rightarrow> v | None \<Rightarrow> NaN)"

definition reindex :: "string list \<Rightarrow> string list \<Rightarrow> cell list \<Rightarrow> cell list" where
  "reindex cols cols' r = map (record_of cols r) cols'"

definition pd_concat :: "frame list \<Rightarrow> exn + frame" where
  "pd_concat objs =
     (if objs = [] then Inl (ValueError ''No objects to concatenate'')
      else
        (let cols = union_indexes (map columns objs);
             rs = concat (map (\<lambda>df. map (reindex (columns df) cols) (rows df)) objs)
         in Inr \<lparr>columns = cols, index = map Pos [0..<length rs], rows = rs\<rparr>))"

definition build :: "filesystem \<Rightarrow> message list \<times> (exn + frame)" where
  "build fs =
     (let (all_dataframes, out) = read_all fs (csv_files fs) ([], [])
      in (out, pd_concat all_dataframes))"

subsection \<open>\<^verbatim>\<open>normalize\<close>\<close>

text \<open>
  Modelled from the spec: \<open>normalize\<close>, which the notebook does not contain (a markdown
  cell only notes the substitution as something to do). The spec: it replaces every
  occurrence of the sentinel token \<^verbatim>\<open>---\<close> in the net-exchange field with the
  missing-value marker and leaves all other fields untouched. The net-exchange field is
  the column the files call \<open>net_exchange\<close>.
\<close>

definition net_exchange :: string where
  "net_exchange = '' Intercambio neto entre Gerencias (MWh)''"

definition sentinel :: string where
  "sentinel = ''---''"

fun normalize_row :: "string list \<Rightarrow> cell list \<Rightarrow> cell list" where
  "normalize_row (c # cs) (x # xs) =
     (if c = net_exchange \<and> x = Text sentinel then NaN else x) # normalize_row cs xs"
| "normalize_row [] xs = xs"
| "normalize_row cs [] = []"

definition normalize :: "frame \<Rightarrow> frame" where
  "normalize d = d\<lparr>rows := map (normalize_row (columns d)) (rows d)\<rparr>"

subsection \<open>Sample files and directories\<close>

text \<open>
  The header row is the one the notebook shows for the published files; a data row
  takes its hour as a parameter. \<open>file_A\<close> is a file of the published shape with one row
  per hour of a day, \<open>file_B\<close> a file that ends before the header row.
\<close>

definition header_row :: string where
  "header_row = ''Sistema, Area, Hora, Generacion (MWh), Importacion Total (MWh), Exportacion Total (MWh), Intercambio neto entre Gerencias (MWh), Estimacion de Demanda por Balance (MWh) ''"

definition data_row :: "string \<Rightarrow> string" where
  "data_row h = ''BCA,BCA,'' @ h @ '',1036.03252,22.10174,20.97918,---,1037.15508''"

definition hour_text :: "nat \<Rightarrow> string" where
  "hour_text n =
     (if n < 10 then [char_of (48 + n)]
      else [char_of (48 + n div 10), char_of (48 + n mod 10)])"

definition hours :: "string list" where
  "hours = map hour_text [1..<25]"

definition metadata :: "string list" where
  "metadata = replicate 8 ''Centro Nacional de Control de Energia''"

definition file_A :: "string list" where
  "file_A = metadata @ header_row # map data_row hours"

definition file_B :: "string list" where
  "file_B = [''<html>'', ''not found'', ''</html>'']"

definition fs_AB :: filesystem where
  "fs_AB = \<lparr>listing = [''./data/raw_data'' \<mapsto> [''A.csv'', ''B.csv'']],
            contents = [''./data/raw_data/A.csv'' \<mapsto> Lines file_A,
                        ''./data/raw_data/B.csv'' \<mapsto> Lines file_B]\<rparr>"

definition fs_empty :: filesystem where
  "fs_empty = \<lparr>listing = [''./data/raw_data'' \<mapsto> []], contents = Map.empty\<rparr>"

definition fs_nodir :: filesystem where
  "fs_nodir = \<lparr>listing = Map.empty, contents = Map.empty\<rparr>"

definition fs_five :: filesystem where
  "fs_five = \<lparr>listing = [''./data/raw_data'' \<mapsto>
                 [''d1.csv'', ''notes.txt'', ''d2.csv'', ''d3.csv'', ''summary.xlsx'']],
              contents = Map.empty\<rparr>"

text \<open>
  Further samples: a file whose header has three columns, a file that already has a
  column \<^verbatim>\<open>file_name\<close>, a directory of two small files and a name that cannot be
  opened, and a small table with the sentinel in two columns.
\<close>

definition three_columns :: "string list" where
  "three_columns = metadata @ [''a,b,c'', ''1,2,3'']"

definition fs_three :: filesystem where
  "fs_three = \<lparr>listing = [''./data/raw_data'' \<mapsto> [''three.csv'']],
               contents = [''./data/raw_data/three.csv'' \<mapsto> Lines three_columns]\<rparr>"

definition fs_A3 :: filesystem where
  "fs_A3 = \<lparr>listing = [''./data/raw_data'' \<mapsto> [''A.csv'', ''three.csv'']],
            contents = [''./data/raw_data/A.csv'' \<mapsto> Lines file_A,
                        ''./data/raw_data/three.csv'' \<mapsto> Lines three_columns]\<rparr>"

definition already_tagged :: "string list" where
  "already_tagged = metadata @ [''Hora,file_name'', ''1,january.csv'']"

definition fs_tagged :: filesystem where
  "fs_tagged = \<lparr>listing = [''./data/raw_data'' \<mapsto> [''t.csv'']],
               contents = [''./data/raw_data/t.csv'' \<mapsto> Lines already_tagged]\<rparr>"

definition day_file :: "string list \<Rightarrow> string list" where
  "day_file rs = metadata @ ''Hora,Demanda'' # rs"

definition fs_days :: filesystem where
  "fs_days = \<lparr>listing = [''./data/raw_data'' \<mapsto> [''d1.csv'', ''d2.csv'', ''d3.csv'']],
              contents = [''./data/raw_data/d1.csv'' \<mapsto> Lines (day_file [''1,900'']),
                          ''./data/raw_data/d2.csv'' \<mapsto> Lines (day_file [''1,800'', ''2,850''])]\<rparr>"

definition sample_frame :: frame where
  "sample_frame = \<lparr>columns = ['' Hora'', net_exchange, ''file_name''],
                   index = [Pos 0, Pos 1],
                   rows = [[Text ''1'', Text ''---'', Text ''---''],
                           [Text ''2'', Text ''12.5'', Text ''a.csv'']]\<rparr>"

section \<open>Properties\<close>

subsection \<open>The reading loop\<close>

lemma read_all_eq:
  "read_all fs files (dfs, out) =
     (dfs @ map (\<lambda>f. projr (add_file_name fs f)) (filter (\<lambda>f. \<not> isl (add_file_name fs f)) files),
      out @ map (\<lambda>f. Failed_to_read f (projl (add_file_name fs f)))
                (filter (\<lambda>f. isl (add_file_name fs f)) files))"
proof (induction files arbitrary: dfs out)
  case Nil
  show ?case by simp
next
  case (Cons f rest)
  show ?case
  proof (cases "add_file_name fs f")
    case (Inl e)
    then show ?thesis by (simp add: Cons.IH)
  next
    case (Inr df)
    then show ?thesis by (simp add: Cons.IH)
  qed
qed

lemma build_eq:
  "build fs =
     (map (\<lambda>f. Failed_to_read f (projl (add_file_name fs f)))
          (filter (\<lambda>f. isl (add_file_name fs f)) (csv_files fs)),
      pd_concat (map (\<lambda>f. projr (add_file_name fs f))
                     (filter (\<lambda>f. \<not> isl (add_file_name fs f)) (csv_files fs))))"
  by (simp add: build_def read_all_eq)

lemma pd_concat_rows:
  "pd_concat objs = Inr d \<Longrightarrow>
     rows d = concat (map (\<lambda>df. map (reindex (columns df) (columns d)) (rows df)) objs)"
  by (auto simp: pd_concat_def Let_def split: if_splits)

lemma pd_concat_length:
  "pd_concat objs = Inr d \<Longrightarrow> length (rows d) = sum_list (map (\<lambda>df. length (rows df)) objs)"
  by (simp add: pd_concat_rows length_concat comp_def)

lemma pd_concat_isl: "isl (pd_concat objs) \<longleftrightarrow> objs = []"
  by (simp add: pd_concat_def Let_def)

lemma sum_rows_filter:
  "sum_list (map (\<lambda>f. length (rows (projr (g f)))) (filter (\<lambda>f. \<not> isl (g f)) files)) =
   sum_list (map (\<lambda>f. case g f of Inr df \<Rightarrow> length (rows df) | Inl e \<Rightarrow> 0) files)"
  by (induction files) (auto split: sum.splits)

subsection \<open>The sample directory evaluated\<close>

lemma csv_files_AB:
  "csv_files fs_AB = [''./data/raw_data/A.csv'', ''./data/raw_data/B.csv'']"
  by code_simp

lemma parse_A_ok: "\<not> isl (add_file_name fs_AB ''./data/raw_data/A.csv'')"
  by code_simp

lemma parse_A_rows: "length (rows (projr (add_file_name fs_AB ''./data/raw_data/A.csv''))) = 24"
  by code_simp

lemma parse_B: "add_file_name fs_AB ''./data/raw_data/B.csv'' = Inl EmptyDataError"
  by code_simp

lemma build_AB:
  "build fs_AB =
     ([Failed_to_read ''./data/raw_data/B.csv'' EmptyDataError],
      pd_concat [projr (add_file_name fs_AB ''./data/raw_data/A.csv'')])"
  by (simp add: build_eq csv_files_AB parse_A_ok parse_B)

lemma pd_concat_single: "\<exists>d. pd_concat [df] = Inr d"
  by (simp add: pd_concat_def Let_def)

subsection \<open>The dataset and the diagnostics\<close>

text \<open>
  C1. Whenever the cells produce a dataset, its number of rows is the sum, over the
  discovered files, of the number of rows \<open>add_file_name\<close> returned for the file, a file
  whose reading raised counting for nothing: no row of a file that was read is lost.
\<close>

theorem build_row_count:
  assumes "build fs = (out, Inr d)"
  shows "length (rows d) =
           sum_list (map (\<lambda>f. case add_file_name fs f of
                                 Inr df \<Rightarrow> length (rows df) | Inl e \<Rightarrow> 0) (csv_files fs))"
proof -
  from assms have "pd_concat (map (\<lambda>f. projr (add_file_name fs f))
      (filter (\<lambda>f. \<not> isl (add_file_name fs f)) (csv_files fs))) = Inr d"
    by (simp add: build_eq)
  then have "length (rows d) = sum_list (map (\<lambda>f. length (rows (projr (add_file_name fs f))))
      (filter (\<lambda>f. \<not> isl (add_file_name fs f)) (csv_files fs)))"
    by (simp add: pd_concat_length comp_def)
  then show ?thesis by (simp only: sum_rows_filter)
qed

theorem build_row_count_witness:
  "\<exists>out d. build fs_AB = (out, Inr d) \<and> length (rows d) = 24"
proof -
  obtain d where d: "pd_concat [projr (add_file_name fs_AB ''./data/raw_data/A.csv'')] = Inr d"
    using pd_concat_single by blast
  have b: "build fs_AB = ([Failed_to_read ''./data/raw_data/B.csv'' EmptyDataError], Inr d)"
    by (simp add: build_AB d)
  obtain a where a: "add_file_name fs_AB ''./data/raw_data/A.csv'' = Inr a"
    using parse_A_ok by (cases "add_file_name fs_AB ''./data/raw_data/A.csv''") auto
  have n: "length (rows a) = 24"
    using parse_A_rows by (simp add: a)
  have "length (rows d) = 24"
    using build_row_count [OF b] by (simp add: csv_files_AB parse_B a n)
  with b show ?thesis by blast
qed

text \<open>
  C2, as the code has it. An exception raised while a file is read does not stop the
  loop: what the cells print is one line per file whose reading raised, in order,
  naming the file and the exception, and the tables handed to \<^verbatim>\<open>pd.concat\<close> are those
  of all the other files, so that there is a dataset exactly when there is such a file.
  For a directory with \<open>file_A\<close> (24 rows) and \<open>file_B\<close>, on which the reader raises,
  that is one line, for B, and 24 rows.
\<close>

theorem build_diagnostics:
  "fst (build fs) =
     map (\<lambda>f. Failed_to_read f (projl (add_file_name fs f)))
         (filter (\<lambda>f. isl (add_file_name fs f)) (csv_files fs))
   \<and> length (fst (build fs)) = length (filter (\<lambda>f. isl (add_file_name fs f)) (csv_files fs))
   \<and> snd (build fs) =
     pd_concat (map (\<lambda>f. projr (add_file_name fs f))
                    (filter (\<lambda>f. \<not> isl (add_file_name fs f)) (csv_files fs)))
   \<and> (isl (snd (build fs)) \<longleftrightarrow>
        filter (\<lambda>f. \<not> isl (add_file_name fs f)) (csv_files fs) = [])"
  by (simp add: build_eq pd_concat_isl)

theorem build_diagnostics_witness:
  "fst (build fs_AB) = [Failed_to_read ''./data/raw_data/B.csv'' EmptyDataError]
   \<and> \<not> isl (snd (build fs_AB)) \<and> length (rows (projr (snd (build fs_AB)))) = 24"
proof -
  have d: "snd (build fs_AB) = pd_concat [projr (add_file_name fs_AB ''./data/raw_data/A.csv'')]"
    using build_diagnostics [of fs_AB] by (simp add: csv_files_AB parse_A_ok parse_B)
  have "fst (build fs_AB) = [Failed_to_read ''./data/raw_data/B.csv'' EmptyDataError]"
    using build_diagnostics [of fs_AB] by (simp add: csv_files_AB parse_A_ok parse_B)
  moreover have "\<not> isl (snd (build fs_AB))" by (simp add: d pd_concat_isl)
  moreover have "length (rows (projr (snd (build fs_AB)))) = 24"
  proof -
    obtain x where x: "pd_concat [projr (add_file_name fs_AB ''./data/raw_data/A.csv'')] = Inr x"
      using pd_concat_single by blast
    from pd_concat_length [OF x] show ?thesis by (simp add: d x parse_A_rows)
  qed
  ultimately show ?thesis by simp
qed

text \<open>
  The claim itself fails where the second file is malformed in its columns only: a 9th
  line of three columns is read without an exception, so nothing is printed and the
  dataset has the rows of both files.
\<close>

theorem build_malformed_columns_counterexample:
  "length (fields (three_columns ! 8)) = 3
   \<and> csv_files fs_A3 = [''./data/raw_data/A.csv'', ''./data/raw_data/three.csv'']
   \<and> fst (build fs_A3) = []
   \<and> \<not> isl (snd (build fs_A3))
   \<and> length (rows (projr (snd (build fs_A3)))) = 25"
  by code_simp

text \<open>
  C6, as the code has it. The cells produce a dataset exactly when the reading of at
  least one discovered file did not raise. When no file is discovered, or every one
  raises, \<^verbatim>\<open>pd.concat\<close> is given the empty list and raises \<^verbatim>\<open>ValueError\<close>: there is
  no dataset, empty or other.
\<close>

theorem build_succeeds_iff:
  "(isl (snd (build fs)) \<longleftrightarrow> list_all (\<lambda>f. isl (add_file_name fs f)) (csv_files fs))
   \<and> (isl (snd (build fs)) \<longrightarrow> snd (build fs) = Inl (ValueError ''No objects to concatenate''))"
proof -
  have "isl (snd (build fs)) \<longleftrightarrow> filter (\<lambda>f. \<not> isl (add_file_name fs f)) (csv_files fs) = []"
    by (simp add: build_eq pd_concat_isl)
  also have "\<dots> \<longleftrightarrow> list_all (\<lambda>f. isl (add_file_name fs f)) (csv_files fs)"
    by (simp add: filter_empty_conv list_all_iff)
  finally have 1:
    "isl (snd (build fs)) \<longleftrightarrow> list_all (\<lambda>f. isl (add_file_name fs f)) (csv_files fs)" .
  have 2: "isl (snd (build fs)) \<longrightarrow> snd (build fs) = Inl (ValueError ''No objects to concatenate'')"
    by (simp add: build_eq pd_concat_def Let_def)
  from 1 2 show ?thesis by blast
qed

theorem build_succeeds_iff_witness:
  "\<not> isl (snd (build fs_AB)) \<and> \<not> list_all (\<lambda>f. isl (add_file_name fs_AB f)) (csv_files fs_AB)
   \<and> isl (snd (build fs_empty))
   \<and> snd (build fs_empty) = Inl (ValueError ''No objects to concatenate'')"
proof -
  have 1: "\<not> list_all (\<lambda>f. isl (add_file_name fs_AB f)) (csv_files fs_AB)"
    by (simp add: csv_files_AB parse_A_ok)
  have 2: "list_all (\<lambda>f. isl (add_file_name fs_empty f)) (csv_files fs_empty)" by code_simp
  from 1 2 build_succeeds_iff [of fs_AB] build_succeeds_iff [of fs_empty] show ?thesis by blast
qed

text \<open>
  The claim itself fails on a directory without matching files: nothing is discovered
  and the cells end in \<^verbatim>\<open>ValueError\<close>.
\<close>

theorem build_empty_counterexample:
  "csv_files fs_empty = [] \<and> build fs_empty = ([], Inl (ValueError ''No objects to concatenate''))"
  by code_simp

subsection \<open>Discovery\<close>

lemma pattern_split:
  "os_path_split (os_path_join DATA_FOLDER ''*.csv'') = (''./data/raw_data'', ''*.csv'')"
  by (simp add: os_path_split_def os_path_join_def DATA_FOLDER_def)

lemma fnmatch_literal:
  "CHR ''*'' \<notin> set p \<Longrightarrow> CHR ''?'' \<notin> set p \<Longrightarrow> fnmatch n p \<longleftrightarrow> n = p"
  by (induction n p rule: fnmatch.induct) auto

lemma fnmatch_star_literal:
  "CHR ''*'' \<notin> set p \<Longrightarrow> CHR ''?'' \<notin> set p \<Longrightarrow> fnmatch n (CHR ''*'' # p) \<longleftrightarrow> suffix p n"
proof (induction n)
  case Nil
  then show ?case by (cases p) (auto simp: fnmatch_literal)
next
  case (Cons x xs)
  then show ?case by (auto simp: fnmatch_literal suffix_Cons)
qed

lemma fnmatch_csv: "fnmatch n ''*.csv'' \<longleftrightarrow> suffix ''.csv'' n"
  by (rule fnmatch_star_literal) simp_all

lemma ishidden_prefix: "ishidden n \<longleftrightarrow> prefix ''.'' n"
  by (cases n) (auto simp: ishidden_def)

text \<open>
  C7, as the code has it. The files discovered are the entries of the one directory
  \<^verbatim>\<open>./data/raw_data\<close> whose names end in \<^verbatim>\<open>.csv\<close> and do not start with a dot, in
  the order of the listing, each joined to the directory path; entries of
  subdirectories are never looked at. Where no name matches the result is empty, and
  where the directory cannot be listed it is empty too: \<^verbatim>\<open>glob\<close> raises nothing.
\<close>

theorem discover_eq:
  "csv_files fs =
     (case listing fs ''./data/raw_data'' of
        None \<Rightarrow> []
      | Some names \<Rightarrow>
          map (os_path_join ''./data/raw_data'')
              (filter (\<lambda>n. suffix ''.csv'' n \<and> \<not> prefix ''.'' n) names))"
proof -
  have h: "\<not> ishidden ''*.csv''" by (simp add: ishidden_def)
  show ?thesis
    by (simp add: csv_files_def pattern_split glob1_def h fnmatch_csv ishidden_prefix
          conj_commute split: option.splits)
qed

theorem discover_eq_witness:
  "csv_files fs_five =
     [''./data/raw_data/d1.csv'', ''./data/raw_data/d2.csv'', ''./data/raw_data/d3.csv'']
   \<and> csv_files fs_empty = []"
proof -
  have 1: "(case listing fs_five ''./data/raw_data'' of
        None \<Rightarrow> []
      | Some names \<Rightarrow>
          map (os_path_join ''./data/raw_data'')
              (filter (\<lambda>n. suffix ''.csv'' n \<and> \<not> prefix ''.'' n) names)) =
      [''./data/raw_data/d1.csv'', ''./data/raw_data/d2.csv'', ''./data/raw_data/d3.csv'']"
    by code_simp
  have 2: "(case listing fs_empty ''./data/raw_data'' of
        None \<Rightarrow> []
      | Some names \<Rightarrow>
          map (os_path_join ''./data/raw_data'')
              (filter (\<lambda>n. suffix ''.csv'' n \<and> \<not> prefix ''.'' n) names)) = []"
    by code_simp
  show ?thesis
    by (simp only: discover_eq [of fs_five] discover_eq [of fs_empty] 1 2)
qed

text \<open>
  The claim itself fails where the directory does not exist: the listing raises, the
  exception is swallowed, and the result is the empty list.
\<close>

theorem discover_missing_directory_counterexample:
  "listing fs_nodir ''./data/raw_data'' = None \<and> csv_files fs_nodir = []"
  by code_simp

subsection \<open>The reader\<close>

lemma snd_numbered: "map snd (drop k (numbered ls)) = drop k ls"
  by (simp add: numbered_def drop_map [symmetric])

lemma snd_filter:
  "map snd (filter (\<lambda>(n, l). P l) nls) = filter P (map snd nls)"
  by (induction nls) auto

lemma pad_length: "length r \<le> w \<Longrightarrow> length (pad w r) = w"
  by (simp add: pad_def)

lemma pad_exact: "length r = w \<Longrightarrow> pad w r = r"
  by (simp add: pad_def)

lemma fields_join: "concat (map ((#) d) (split_on d l)) = d # l"
  by (induction l) (auto split: list.splits)

lemma find_None_width:
  "(\<And>n r. (n, r) \<in> set recs \<Longrightarrow> length r \<le> w) \<Longrightarrow> find (\<lambda>(n, r). w < length r) recs = None"
  by (fastforce simp: find_None_iff not_less)

lemma parse_lines_regular:
  assumes f: "filter (\<lambda>l. \<not> blank l) (map snd nls) = h # body"
    and w: "\<forall>l \<in> set body. length (fields l) \<le> length (fields h)"
  shows "parse_lines nls =
           Inr \<lparr>columns = fields h, index = map Pos [0..<length body],
                rows = map (\<lambda>l. pad (length (fields h)) (map cell_of (fields l))) body\<rparr>"
proof -
  from f obtain n0 pbody where p: "filter (\<lambda>(n, l). \<not> blank l) nls = (n0, h) # pbody"
    and b: "map snd pbody = body"
    by (cases "filter (\<lambda>(n, l). \<not> blank l) nls") (auto simp: snd_filter [symmetric])
  let ?recs = "map (\<lambda>(n, l). (n, map cell_of (fields l))) pbody"
  have le: "\<And>n r. (n, r) \<in> set ?recs \<Longrightarrow> length r \<le> length (fields h)"
    using w b by force
  have wd: "(case ?recs of [] \<Rightarrow> length (fields h)
             | (_, r) # _ \<Rightarrow> max (length (fields h)) (length r)) = length (fields h)"
  proof (cases ?recs)
    case Nil
    then show ?thesis by simp
  next
    case (Cons a rest)
    obtain n r where a: "a = (n, r)" by (cases a)
    have "(n, r) \<in> set ?recs" unfolding Cons a by simp
    then have "length r \<le> length (fields h)" by (rule le)
    then show ?thesis unfolding Cons a by (simp add: max_def)
  qed
  have fn: "find (\<lambda>(n, r). length (fields h) < length r) ?recs = None"
    by (rule find_None_width) (rule le)
  have rw: "map (\<lambda>(n, r). pad (length (fields h)) r) ?recs =
            map (\<lambda>l. pad (length (fields h)) (map cell_of (fields l))) body"
    unfolding b [symmetric] by (simp add: comp_def case_prod_beta)
  have len: "length pbody = length body" using b by (metis length_map)
  show ?thesis
    unfolding parse_lines_def p
    by (simp only: list.case prod.case Let_def wd fn option.case diff_self_eq_0 if_True
          drop_0 rw length_map len simp_thms)
qed

lemma parse_lines_wf:
  assumes "parse_lines nls = Inr t"
  shows "\<forall>r \<in> set (rows t). length r = length (columns t)"
proof (cases "filter (\<lambda>(n, l). \<not> blank l) nls")
  case Nil
  with assms show ?thesis by (simp add: parse_lines_def)
next
  case (Cons a pbody)
  obtain n0 h where a: "a = (n0, h)" by (cases a)
  define recs where "recs = map (\<lambda>(n, l). (n, map cell_of (fields l))) pbody"
  define w where "w = (case recs of [] \<Rightarrow> length (fields h)
                       | (_, r) # _ \<Rightarrow> max (length (fields h)) (length r))"
  have wge: "length (fields h) \<le> w"
    unfolding w_def by (cases recs) (auto split: prod.splits)
  from assms have fn: "find (\<lambda>(n, r). w < length r) recs = None"
    and t: "columns t = fields h" "rows t = map (\<lambda>(n, r). drop (w - length (fields h)) (pad w r)) recs"
    unfolding parse_lines_def Cons a list.case prod.case Let_def recs_def [symmetric] w_def [symmetric]
    by (auto split: option.splits)
  from fn have le: "\<And>n r. (n, r) \<in> set recs \<Longrightarrow> length r \<le> w"
    by (fastforce simp: find_None_iff not_less)
  show ?thesis
  proof
    fix r assume "r \<in> set (rows t)"
    then obtain n r0 where m: "(n, r0) \<in> set recs" and r: "r = drop (w - length (fields h)) (pad w r0)"
      unfolding t by auto
    from le [OF m] have "length (pad w r0) = w" by (rule pad_length)
    with wge show "length r = length (columns t)" unfolding r t by simp
  qed
qed

lemma read_csv_wf:
  "read_csv fs path k = Inr t \<Longrightarrow> \<forall>r \<in> set (rows t). length r = length (columns t)"
  by (auto simp: read_csv_def parse_lines_wf split: option.splits content.splits)

lemma parse_lines_columns:
  assumes "parse_lines nls = Inr t" "filter (\<lambda>l. \<not> blank l) (map snd nls) = h # body"
  shows "columns t = fields h"
proof -
  from assms(2) obtain n0 pbody where p: "filter (\<lambda>(n, l). \<not> blank l) nls = (n0, h) # pbody"
    by (cases "filter (\<lambda>(n, l). \<not> blank l) nls") (auto simp: snd_filter [symmetric])
  from assms(1) show ?thesis
    unfolding parse_lines_def p list.case prod.case Let_def
    by (auto split: option.splits)
qed

lemma drop8_header: "8 < length ls \<Longrightarrow> drop 8 ls = ls ! 8 # drop 9 ls"
  using Cons_nth_drop_Suc [of 8 ls] by simp

lemma filter_from_header:
  "8 < length ls \<Longrightarrow> \<not> blank (ls ! 8) \<Longrightarrow>
   filter (\<lambda>l. \<not> blank l) (map snd (drop 8 (numbered ls))) =
   ls ! 8 # filter (\<lambda>l. \<not> blank l) (drop 9 ls)"
  by (simp add: snd_numbered drop8_header)

lemma read_csv_lines:
  "contents fs path = Some (Lines ls) \<Longrightarrow> read_csv fs path k = parse_lines (drop k (numbered ls))"
  by (simp add: read_csv_def)

lemma read_csv_short:
  assumes "contents fs path = Some (Lines ls)" "length ls \<le> 8"
  shows "read_csv fs path 8 = Inl EmptyDataError"
proof -
  have "drop 8 (numbered ls) = []" using assms(2) by (simp add: numbered_def)
  then show ?thesis by (simp add: read_csv_lines [OF assms(1)] parse_lines_def)
qed

lemma read_csv_regular:
  assumes c: "contents fs path = Some (Lines ls)" and n: "8 < length ls"
    and h: "\<not> blank (ls ! 8)"
    and w: "\<forall>l \<in> set (drop 9 ls). length (fields l) \<le> length (fields (ls ! 8))"
  shows "read_csv fs path 8 =
           Inr \<lparr>columns = fields (ls ! 8),
                index = map Pos [0..<length (filter (\<lambda>l. \<not> blank l) (drop 9 ls))],
                rows = map (\<lambda>l. pad (length (fields (ls ! 8))) (map cell_of (fields l)))
                           (filter (\<lambda>l. \<not> blank l) (drop 9 ls))\<rparr>"
proof -
  have "\<forall>l \<in> set (filter (\<lambda>l. \<not> blank l) (drop 9 ls)). length (fields l) \<le> length (fields (ls ! 8))"
    using w by simp
  from parse_lines_regular [OF filter_from_header [OF n h] this]
  show ?thesis by (simp only: read_csv_lines [OF c])
qed

subsection \<open>The added column and the concatenation\<close>

lemma map_of_set_key:
  "length r = length cols \<Longrightarrow> k \<in> set cols \<Longrightarrow>
   map_of (zip cols (map (\<lambda>(c, x). if c = k then v else x) (zip cols r))) k = Some v"
proof (induction cols arbitrary: r)
  case Nil
  then show ?case by simp
next
  case (Cons c cs)
  then obtain x xs where r: "r = x # xs" by (cases r) auto
  with Cons show ?case by auto
qed

lemma map_of_set_other:
  "c' \<noteq> k \<Longrightarrow>
   map_of (zip cols (map (\<lambda>(c, x). if c = k then v else x) (zip cols r))) c' = map_of (zip cols r) c'"
proof (induction cols arbitrary: r)
  case Nil
  then show ?case by simp
next
  case (Cons c cs)
  then show ?case by (cases r) auto
qed

lemma setitem_record:
  assumes "\<forall>r \<in> set (rows t). length r = length (columns t)"
  shows "map (record_of (columns (setitem t k v))) (rows (setitem t k v)) =
         map (\<lambda>r. (record_of (columns t) r)(k := v)) (rows t)"
proof (cases "k \<in> set (columns t)")
  case True
  have "\<And>r. r \<in> set (rows t) \<Longrightarrow>
      record_of (columns t) (map (\<lambda>(c, x). if c = k then v else x) (zip (columns t) r)) =
      (record_of (columns t) r)(k := v)"
    using assms True
    by (auto simp: record_of_def fun_eq_iff map_of_set_key map_of_set_other)
  with True show ?thesis by (simp add: setitem_def comp_def)
next
  case False
  have n: "\<And>r c. r \<in> set (rows t) \<Longrightarrow> c \<notin> set (columns t) \<Longrightarrow> map_of (zip (columns t) r) c = None"
    using assms by (metis map_of_zip_is_None)
  have "\<And>r. r \<in> set (rows t) \<Longrightarrow>
      record_of (columns t @ [k]) (r @ [v]) = (record_of (columns t) r)(k := v)"
    using assms False
    by (auto simp: record_of_def fun_eq_iff map_add_def n split: option.splits)
  with False show ?thesis by (simp add: setitem_def comp_def)
qed

lemma add_file_name_cases:
  "add_file_name fs path = Inr df \<longleftrightarrow>
     (\<exists>t. read_csv fs path 8 = Inr t \<and> df = setitem t ''file_name'' (Text path))"
  by (auto simp: add_file_name_def split: sum.splits)

lemma add_file_name_tag:
  assumes "add_file_name fs f = Inr df"
  shows "map (\<lambda>r. record_of (columns df) r ''file_name'') (rows df) =
         replicate (length (rows df)) (Text f)"
proof -
  from assms obtain t where t: "read_csv fs f 8 = Inr t" and df: "df = setitem t ''file_name'' (Text f)"
    by (auto simp: add_file_name_cases)
  have "map (\<lambda>r. record_of (columns df) r ''file_name'') (rows df) =
        map (\<lambda>g. g ''file_name'') (map (record_of (columns df)) (rows df))"
    by (simp add: comp_def)
  also have "\<dots> = map (\<lambda>r. Text f) (rows t)"
    unfolding df setitem_record [OF read_csv_wf [OF t]] by (simp add: comp_def)
  also have "\<dots> = replicate (length (rows df)) (Text f)"
    by (simp add: df setitem_def map_replicate_const)
  finally show ?thesis .
qed

lemma set_fold_union:
  "set (fold (\<lambda>c acc. if c \<in> set acc then acc else acc @ [c]) xs acc) = set acc \<union> set xs"
  by (induction xs arbitrary: acc) auto

lemma set_union_indexes: "set (union_indexes css) = \<Union> (set ` set css)"
  by (simp add: union_indexes_def set_fold_union)

lemma map_of_zip_map_same:
  "map_of (zip xs (map g xs)) c = (if c \<in> set xs then Some (g c) else None)"
  by (induction xs) auto

lemma record_of_reindex:
  assumes "set cols \<subseteq> set cols'"
  shows "record_of cols' (reindex cols cols' r) = record_of cols r"
proof
  fix c
  show "record_of cols' (reindex cols cols' r) c = record_of cols r c"
  proof (cases "c \<in> set cols'")
    case True
    then show ?thesis by (simp add: record_of_def [of cols'] reindex_def map_of_zip_map_same)
  next
    case False
    with assms have "c \<notin> set cols" by auto
    then have "map_of (zip cols r) c = None"
      by (metis map_of_eq_None_iff set_zip_leftD prod.collapse imageE)
    with False show ?thesis by (simp add: record_of_def reindex_def map_of_zip_map_same)
  qed
qed

lemma pd_concat_columns:
  "pd_concat objs = Inr d \<Longrightarrow> columns d = union_indexes (map columns objs)"
  by (auto simp: pd_concat_def Let_def split: if_splits)

lemma pd_concat_record:
  assumes "pd_concat objs = Inr d"
  shows "map (record_of (columns d)) (rows d) =
         concat (map (\<lambda>df. map (record_of (columns df)) (rows df)) objs)"
proof -
  have sub: "\<And>df. df \<in> set objs \<Longrightarrow> set (columns df) \<subseteq> set (columns d)"
    by (auto simp: pd_concat_columns [OF assms] set_union_indexes)
  have "map (record_of (columns d)) (rows d) =
        concat (map (\<lambda>df. map (\<lambda>r. record_of (columns d) (reindex (columns df) (columns d) r)) (rows df)) objs)"
    by (simp add: pd_concat_rows [OF assms] map_concat comp_def)
  also have "\<dots> = concat (map (\<lambda>df. map (record_of (columns df)) (rows df)) objs)"
    by (rule arg_cong [where f = concat], rule map_cong [OF refl]) (simp add: record_of_reindex [OF sub])
  finally show ?thesis .
qed

lemma concat_filter_sum:
  "concat (map (\<lambda>f. h (projr (g f))) (filter (\<lambda>f. \<not> isl (g f)) files)) =
   concat (map (\<lambda>f. case g f of Inr df \<Rightarrow> h df | Inl e \<Rightarrow> []) files)"
  by (induction files) (auto split: sum.splits)

subsection \<open>The sample files evaluated\<close>

lemma contents_A: "contents fs_AB ''./data/raw_data/A.csv'' = Some (Lines file_A)"
  by (simp add: fs_AB_def)

lemma contents_B: "contents fs_AB ''./data/raw_data/B.csv'' = Some (Lines file_B)"
  by (simp add: fs_AB_def)

lemma file_A_shape:
  "8 < length file_A"
  "list_all plain file_A"
  "\<forall>l \<in> set (drop 8 file_A). \<not> blank l"
  "\<forall>l \<in> set (drop 9 file_A). length (fields l) = length (fields (file_A ! 8))"
  "''file_name'' \<notin> set (fields (file_A ! 8))"
  "file_A ! 8 = header_row"
  "length (fields header_row) = 8"
  by code_simp+

lemma columns_A:
  "fields header_row @ [''file_name''] =
     [''Sistema'', '' Area'', '' Hora'', '' Generacion (MWh)'', '' Importacion Total (MWh)'',
      '' Exportacion Total (MWh)'', '' Intercambio neto entre Gerencias (MWh)'',
      '' Estimacion de Demanda por Balance (MWh) '', ''file_name'']"
  by code_simp

lemma csv_files_days:
  "csv_files fs_days = [''./data/raw_data/d1.csv'', ''./data/raw_data/d2.csv'', ''./data/raw_data/d3.csv'']"
  by code_simp

lemma parse_days:
  "add_file_name fs_days ''./data/raw_data/d1.csv'' =
     Inr \<lparr>columns = [''Hora'', ''Demanda'', ''file_name''], index = [Pos 0],
          rows = [[Text ''1'', Text ''900'', Text ''./data/raw_data/d1.csv'']]\<rparr>"
  "add_file_name fs_days ''./data/raw_data/d2.csv'' =
     Inr \<lparr>columns = [''Hora'', ''Demanda'', ''file_name''], index = [Pos 0, Pos 1],
          rows = [[Text ''1'', Text ''800'', Text ''./data/raw_data/d2.csv''],
                  [Text ''2'', Text ''850'', Text ''./data/raw_data/d2.csv'']]\<rparr>"
  "add_file_name fs_days ''./data/raw_data/d3.csv'' = Inl (OSError ''./data/raw_data/d3.csv'')"
  by code_simp+

subsection \<open>Order and provenance\<close>

text \<open>
  C8. Seen as records (column name to cell, missing where the table has no such
  column), the rows of the dataset are the rows \<open>add_file_name\<close> returned for the first
  discovered file that was read, in their order, then those of the second, and so on;
  and the \<^verbatim>\<open>file_name\<close> cell of every row is the path of the file the row came from.
\<close>

theorem build_ordered_concatenation:
  assumes "build fs = (out, Inr d)"
  shows "map (record_of (columns d)) (rows d) =
           concat (map (\<lambda>f. case add_file_name fs f of
                               Inr df \<Rightarrow> map (record_of (columns df)) (rows df)
                             | Inl e \<Rightarrow> []) (csv_files fs))
       \<and> map (\<lambda>r. record_of (columns d) r ''file_name'') (rows d) =
           concat (map (\<lambda>f. case add_file_name fs f of
                               Inr df \<Rightarrow> replicate (length (rows df)) (Text f)
                             | Inl e \<Rightarrow> []) (csv_files fs))"
proof -
  from assms have c: "pd_concat (map (\<lambda>f. projr (add_file_name fs f))
      (filter (\<lambda>f. \<not> isl (add_file_name fs f)) (csv_files fs))) = Inr d"
    by (simp add: build_eq)
  have 1: "map (record_of (columns d)) (rows d) =
           concat (map (\<lambda>f. case add_file_name fs f of
                               Inr df \<Rightarrow> map (record_of (columns df)) (rows df)
                             | Inl e \<Rightarrow> []) (csv_files fs))"
    unfolding pd_concat_record [OF c] map_map comp_def
    by (rule concat_filter_sum [where h = "\<lambda>df. map (record_of (columns df)) (rows df)"])
  have "map (\<lambda>r. record_of (columns d) r ''file_name'') (rows d) =
        map (\<lambda>g. g ''file_name'') (map (record_of (columns d)) (rows d))"
    by (simp add: comp_def)
  also have "\<dots> = concat (map (\<lambda>f. case add_file_name fs f of
                               Inr df \<Rightarrow> map (\<lambda>r. record_of (columns df) r ''file_name'') (rows df)
                             | Inl e \<Rightarrow> []) (csv_files fs))"
    unfolding 1 map_concat map_map
    by (rule arg_cong [where f = concat], rule map_cong [OF refl]) (simp add: comp_def split: sum.splits)
  also have "\<dots> = concat (map (\<lambda>f. case add_file_name fs f of
                               Inr df \<Rightarrow> replicate (length (rows df)) (Text f)
                             | Inl e \<Rightarrow> []) (csv_files fs))"
    by (rule arg_cong [where f = concat], rule map_cong [OF refl])
       (simp add: add_file_name_tag split: sum.splits)
  finally show ?thesis using 1 by simp
qed

theorem build_ordered_concatenation_witness:
  "\<exists>out d. build fs_days = (out, Inr d)
     \<and> map (\<lambda>r. record_of (columns d) r ''Demanda'') (rows d) =
         [Text ''900'', Text ''800'', Text ''850'']
     \<and> map (\<lambda>r. record_of (columns d) r ''file_name'') (rows d) =
         [Text ''./data/raw_data/d1.csv'', Text ''./data/raw_data/d2.csv'',
          Text ''./data/raw_data/d2.csv'']"
proof -
  have "\<not> isl (snd (build fs_days))"
    by (simp add: build_eq pd_concat_isl csv_files_days parse_days)
  then obtain out d where b: "build fs_days = (out, Inr d)"
    by (cases "build fs_days"; cases "snd (build fs_days)") auto
  from build_ordered_concatenation [OF b]
  have 1: "map (record_of (columns d)) (rows d) =
      [record_of [''Hora'', ''Demanda'', ''file_name'']
         [Text ''1'', Text ''900'', Text ''./data/raw_data/d1.csv''],
       record_of [''Hora'', ''Demanda'', ''file_name'']
         [Text ''1'', Text ''800'', Text ''./data/raw_data/d2.csv''],
       record_of [''Hora'', ''Demanda'', ''file_name'']
         [Text ''2'', Text ''850'', Text ''./data/raw_data/d2.csv'']]"
    and 2: "map (\<lambda>r. record_of (columns d) r ''file_name'') (rows d) =
         [Text ''./data/raw_data/d1.csv'', Text ''./data/raw_data/d2.csv'',
          Text ''./data/raw_data/d2.csv'']"
    by (simp_all add: csv_files_days parse_days)
  have "map (\<lambda>r. record_of (columns d) r ''Demanda'') (rows d) =
        map (\<lambda>g. g ''Demanda'') (map (record_of (columns d)) (rows d))"
    by (simp add: comp_def)
  also have "\<dots> = [Text ''900'', Text ''800'', Text ''850'']"
    unfolding 1 by (simp add: record_of_def)
  finally have 3: "map (\<lambda>r. record_of (columns d) r ''Demanda'') (rows d) =
        [Text ''900'', Text ''800'', Text ''850'']" .
  show ?thesis
    by (rule exI [of _ out], rule exI [of _ d]) (simp only: b 2 3 simp_thms)
qed

subsection \<open>What \<^verbatim>\<open>add_file_name\<close> raises and returns\<close>

text \<open>
  C3, as the code has it. \<open>add_file_name\<close> checks no column count and wraps nothing:
  whatever the reader raises leaves it unchanged. For a file all of whose lines are
  plain: with at most 8 lines it raises \<^verbatim>\<open>EmptyDataError\<close>; with a 9th line that is not
  blank and no later line of more fields than the 9th it raises nothing and gives a
  table of as many columns as the 9th line has fields, be that 8 or not. So a file of
  the expected shape does not raise, and neither does one with another column count.
\<close>

theorem parse_raises:
  "(read_csv fs path 8 = Inl e \<longrightarrow> add_file_name fs path = Inl e)
   \<and> (contents fs path = Some (Lines ls) \<and> list_all plain ls \<and> length ls \<le> 8 \<longrightarrow>
        add_file_name fs path = Inl EmptyDataError)
   \<and> (contents fs path = Some (Lines ls) \<and> list_all plain ls \<and> 8 < length ls
        \<and> \<not> blank (ls ! 8)
        \<and> (\<forall>l \<in> set (drop 9 ls). length (fields l) \<le> length (fields (ls ! 8))) \<longrightarrow>
        (\<exists>t. read_csv fs path 8 = Inr t \<and> length (columns t) = length (fields (ls ! 8)))
        \<and> \<not> isl (add_file_name fs path))"
proof (intro conjI impI)
  assume "read_csv fs path 8 = Inl e"
  then show "add_file_name fs path = Inl e" by (simp add: add_file_name_def)
next
  assume "contents fs path = Some (Lines ls) \<and> list_all plain ls \<and> length ls \<le> 8"
  then show "add_file_name fs path = Inl EmptyDataError"
    by (simp add: add_file_name_def read_csv_short)
next
  assume a: "contents fs path = Some (Lines ls) \<and> list_all plain ls \<and> 8 < length ls
        \<and> \<not> blank (ls ! 8)
        \<and> (\<forall>l \<in> set (drop 9 ls). length (fields l) \<le> length (fields (ls ! 8)))"
  then have r: "read_csv fs path 8 =
           Inr \<lparr>columns = fields (ls ! 8),
                index = map Pos [0..<length (filter (\<lambda>l. \<not> blank l) (drop 9 ls))],
                rows = map (\<lambda>l. pad (length (fields (ls ! 8))) (map cell_of (fields l)))
                           (filter (\<lambda>l. \<not> blank l) (drop 9 ls))\<rparr>"
    by (intro read_csv_regular) simp_all
  show "\<exists>t. read_csv fs path 8 = Inr t \<and> length (columns t) = length (fields (ls ! 8))"
    unfolding r by simp
  show "\<not> isl (add_file_name fs path)"
    by (simp add: add_file_name_def r)
qed

theorem parse_raises_witness:
  "add_file_name fs_AB ''./data/raw_data/B.csv'' = Inl EmptyDataError
   \<and> \<not> isl (add_file_name fs_AB ''./data/raw_data/A.csv'')
   \<and> \<not> isl (add_file_name fs_three ''./data/raw_data/three.csv'')"
proof -
  have b: "read_csv fs_AB ''./data/raw_data/B.csv'' 8 = Inl EmptyDataError"
    "list_all plain file_B" "length file_B \<le> 8"
    by code_simp+
  have a: "\<not> blank (file_A ! 8)"
    "\<forall>l \<in> set (drop 9 file_A). length (fields l) \<le> length (fields (file_A ! 8))"
    by code_simp+
  have t: "contents fs_three ''./data/raw_data/three.csv'' = Some (Lines three_columns)"
    "list_all plain three_columns"
    "8 < length three_columns" "\<not> blank (three_columns ! 8)"
    "\<forall>l \<in> set (drop 9 three_columns). length (fields l) \<le> length (fields (three_columns ! 8))"
    by code_simp+
  from parse_raises [of fs_AB "''./data/raw_data/B.csv''" EmptyDataError file_B] b contents_B
  have "add_file_name fs_AB ''./data/raw_data/B.csv'' = Inl EmptyDataError" by blast
  moreover
  from parse_raises [of fs_AB "''./data/raw_data/A.csv''" EmptyDataError file_A]
    a contents_A file_A_shape(1,2)
  have "\<not> isl (add_file_name fs_AB ''./data/raw_data/A.csv'')" by blast
  moreover
  from parse_raises [of fs_three "''./data/raw_data/three.csv''" EmptyDataError three_columns] t
  have "\<not> isl (add_file_name fs_three ''./data/raw_data/three.csv'')" by blast
  ultimately show ?thesis by blast
qed

text \<open>
  The claim itself fails on a file whose 9th line has three columns: it is read without
  an exception, as a table of three columns and the added one.
\<close>

theorem parse_three_columns_counterexample:
  "length (fields (three_columns ! 8)) = 3
   \<and> add_file_name fs_three ''./data/raw_data/three.csv'' =
       Inr \<lparr>columns = [''a'', ''b'', ''c'', ''file_name''], index = [Pos 0],
            rows = [[Text ''1'', Text ''2'', Text ''3'', Text ''./data/raw_data/three.csv'']]\<rparr>"
  by code_simp

text \<open>
  C4, as the code has it. Take a file all of whose lines are plain, with at least 9
  lines, whose 9th line is not blank and holds non-empty, pairwise distinct names, none
  of them \<^verbatim>\<open>file_name\<close>. Whenever \<open>add_file_name\<close> returns a table for it, the column
  names are the comma-separated fields of the 9th line exactly as written, followed by
  \<^verbatim>\<open>file_name\<close>: the first 8 lines are skipped, and joined by commas the names give
  back the line, so no whitespace is removed.
\<close>

theorem parse_column_names:
  assumes "contents fs path = Some (Lines ls)" "list_all plain ls"
    and "8 < length ls" "\<not> blank (ls ! 8)"
    and "distinct (fields (ls ! 8))" "[] \<notin> set (fields (ls ! 8))"
    and "''file_name'' \<notin> set (fields (ls ! 8))"
    and "add_file_name fs path = Inr df"
  shows "columns df = fields (ls ! 8) @ [''file_name'']
       \<and> concat (map ((#) CHR '','') (fields (ls ! 8))) = CHR '','' # ls ! 8"
proof -
  from assms(8) obtain t where t: "read_csv fs path 8 = Inr t"
    and df: "df = setitem t ''file_name'' (Text path)"
    by (auto simp: add_file_name_cases)
  from t have "parse_lines (drop 8 (numbered ls)) = Inr t"
    by (simp add: read_csv_lines [OF assms(1)])
  from parse_lines_columns [OF this filter_from_header [OF assms(3,4)]]
  have "columns t = fields (ls ! 8)" .
  with assms(7) have "columns df = fields (ls ! 8) @ [''file_name'']"
    by (simp add: df setitem_def)
  moreover have "concat (map ((#) CHR '','') (fields (ls ! 8))) = CHR '','' # ls ! 8"
    by (simp add: fields_def fields_join)
  ultimately show ?thesis by simp
qed

theorem parse_column_names_witness:
  "\<exists>df. add_file_name fs_AB ''./data/raw_data/A.csv'' = Inr df
     \<and> columns df =
     [''Sistema'', '' Area'', '' Hora'', '' Generacion (MWh)'', '' Importacion Total (MWh)'',
      '' Exportacion Total (MWh)'', '' Intercambio neto entre Gerencias (MWh)'',
      '' Estimacion de Demanda por Balance (MWh) '', ''file_name'']"
proof -
  obtain df where df: "add_file_name fs_AB ''./data/raw_data/A.csv'' = Inr df"
    using parse_A_ok by (cases "add_file_name fs_AB ''./data/raw_data/A.csv''") auto
  have h: "\<not> blank (file_A ! 8)"
    "distinct (fields (file_A ! 8))" "[] \<notin> set (fields (file_A ! 8))"
    by code_simp+
  from parse_column_names [OF contents_A file_A_shape(2,1) h file_A_shape(5) df]
  have "columns df = fields header_row @ [''file_name'']"
    by (simp add: file_A_shape(6))
  with df show ?thesis by (simp add: columns_A)
qed

text \<open>
  The claim itself fails on the published header row: seven of its names keep their
  leading blank, one also a trailing blank.
\<close>

theorem parse_keeps_whitespace_counterexample:
  "\<not> isl (add_file_name fs_AB ''./data/raw_data/A.csv'')
   \<and> columns (projr (add_file_name fs_AB ''./data/raw_data/A.csv'')) =
     [''Sistema'', '' Area'', '' Hora'', '' Generacion (MWh)'', '' Importacion Total (MWh)'',
      '' Exportacion Total (MWh)'', '' Intercambio neto entre Gerencias (MWh)'',
      '' Estimacion de Demanda por Balance (MWh) '', ''file_name'']"
  by code_simp

text \<open>
  C5, as the code has it. For a file of the expected shape (all lines plain, at least 9
  lines, from the 9th on no blank line, every data row with as many fields as the
  header, no header name \<^verbatim>\<open>file_name\<close>) \<open>add_file_name\<close> returns one row per line after
  the 9th, that is the line count minus 9: the header row is no record. Each row holds
  the cells of the fields of its line (missing for an empty field or a missing-value
  token, the field as written otherwise), then the path; the hour is not checked, it
  is whatever the line says.
\<close>

theorem parse_row_count:
  assumes "contents fs path = Some (Lines ls)" "list_all plain ls" "8 < length ls"
    and "\<forall>l \<in> set (drop 8 ls). \<not> blank l"
    and "\<forall>l \<in> set (drop 9 ls). length (fields l) = length (fields (ls ! 8))"
    and "''file_name'' \<notin> set (fields (ls ! 8))"
  shows "\<exists>df. add_file_name fs path = Inr df
            \<and> length (rows df) = length ls - 9
            \<and> rows df = map (\<lambda>l. map cell_of (fields l) @ [Text path]) (drop 9 ls)"
proof -
  have h: "\<not> blank (ls ! 8)"
    using assms(3,4) by (simp add: drop8_header)
  have nb: "filter (\<lambda>l. \<not> blank l) (drop 9 ls) = drop 9 ls"
    using assms(3,4) by (simp add: drop8_header)
  have w: "\<forall>l \<in> set (drop 9 ls). length (fields l) \<le> length (fields (ls ! 8))"
    using assms(5) by simp
  have p: "map (\<lambda>l. pad (length (fields (ls ! 8))) (map cell_of (fields l))) (drop 9 ls) =
           map (\<lambda>l. map cell_of (fields l)) (drop 9 ls)"
    using assms(5) by (simp add: pad_exact)
  have r: "read_csv fs path 8 =
           Inr \<lparr>columns = fields (ls ! 8), index = map Pos [0..<length (drop 9 ls)],
                rows = map (\<lambda>l. map cell_of (fields l)) (drop 9 ls)\<rparr>"
    using read_csv_regular [OF assms(1,3) h w] unfolding nb p .
  show ?thesis
    using assms(6) by (simp add: add_file_name_def r setitem_def comp_def)
qed

theorem parse_row_count_witness:
  "\<exists>df. add_file_name fs_AB ''./data/raw_data/A.csv'' = Inr df
     \<and> length (rows df) = 24 \<and> map (\<lambda>r. r ! 2) (rows df) = map Text hours"
proof -
  have n: "length file_A - 9 = 24" by code_simp
  have h: "map (\<lambda>r. r ! 2)
             (map (\<lambda>l. map cell_of (fields l) @ [Text ''./data/raw_data/A.csv'']) (drop 9 file_A)) =
           map Text hours"
    by code_simp
  from parse_row_count [OF contents_A file_A_shape(2,1,3,4,5)] n h show ?thesis by auto
qed

text \<open>
  The claim itself fails on \<open>file_A\<close>, 33 lines with the hours 1 to 24: 24 rows are
  returned, not 33 - 8.
\<close>

theorem parse_row_count_counterexample:
  "length file_A = 33
   \<and> \<not> isl (add_file_name fs_AB ''./data/raw_data/A.csv'')
   \<and> length (rows (projr (add_file_name fs_AB ''./data/raw_data/A.csv''))) = 24
   \<and> length (rows (projr (add_file_name fs_AB ''./data/raw_data/A.csv''))) \<noteq> length file_A - 8"
proof -
  have "length file_A = 33" by code_simp
  with parse_A_ok parse_A_rows show ?thesis by simp
qed

text \<open>
  What \<open>add_file_name\<close> does to the table the reader returns: the row labels and the
  number of rows stay, every cell under a column other than \<^verbatim>\<open>file_name\<close> stays, and
  under \<^verbatim>\<open>file_name\<close> every row holds the path passed in. When the table has no column
  of that name, it is appended as a new last column.
\<close>

lemma add_file_name_frame:
  assumes "read_csv fs path 8 = Inr t"
  shows "\<exists>df. add_file_name fs path = Inr df
     \<and> index df = index t
     \<and> length (rows df) = length (rows t)
     \<and> columns df = (if ''file_name'' \<in> set (columns t) then columns t
                      else columns t @ [''file_name''])
     \<and> (''file_name'' \<notin> set (columns t) \<longrightarrow> rows df = map (\<lambda>r. r @ [Text path]) (rows t))
     \<and> map (record_of (columns df)) (rows df) =
         map (\<lambda>r. (record_of (columns t) r)(''file_name'' := Text path)) (rows t)"
proof -
  have "add_file_name fs path = Inr (setitem t ''file_name'' (Text path))"
    by (simp add: add_file_name_def assms)
  moreover have "map (record_of (columns (setitem t ''file_name'' (Text path))))
                     (rows (setitem t ''file_name'' (Text path))) =
         map (\<lambda>r. (record_of (columns t) r)(''file_name'' := Text path)) (rows t)"
    by (rule setitem_record [OF read_csv_wf [OF assms]])
  ultimately show ?thesis by (simp add: setitem_def)
qed

text \<open>
  C10. The claim, and the comment in \<open>add_file_name\<close> (it "adds a column with the file
  name"), say that the table read from the file comes back with its columns and cells
  unchanged and one column appended. The code does not do so for a file that has a
  column \<^verbatim>\<open>file_name\<close> of its own: no column is appended, and the cells read under that
  name are replaced by the path.
\<close>

theorem add_file_name_overwrites_existing_column:
  "read_csv fs_tagged ''./data/raw_data/t.csv'' 8 =
     Inr \<lparr>columns = [''Hora'', ''file_name''], index = [Pos 0],
          rows = [[Text ''1'', Text ''january.csv'']]\<rparr>
   \<and> add_file_name fs_tagged ''./data/raw_data/t.csv'' =
     Inr \<lparr>columns = [''Hora'', ''file_name''], index = [Pos 0],
          rows = [[Text ''1'', Text ''./data/raw_data/t.csv'']]\<rparr>"
  by code_simp

subsection \<open>Normalisation\<close>

lemma normalize_row_idem: "normalize_row cs (normalize_row cs xs) = normalize_row cs xs"
  by (induction cs xs rule: normalize_row.induct) auto

text \<open>
  C9. \<open>normalize\<close> is idempotent: a second application changes nothing, since the first
  leaves no sentinel in the net-exchange column.
\<close>

theorem normalize_idempotent: "normalize (normalize d) = normalize d"
  by (simp add: normalize_def normalize_row_idem comp_def)

theorem normalize_idempotent_witness:
  "normalize (normalize sample_frame) = normalize sample_frame
   \<and> rows (normalize sample_frame) =
       [[Text ''1'', NaN, Text ''---''], [Text ''2'', Text ''12.5'', Text ''a.csv'']]"
proof -
  have "rows (normalize sample_frame) =
       [[Text ''1'', NaN, Text ''---''], [Text ''2'', Text ''12.5'', Text ''a.csv'']]"
    by code_simp
  with normalize_idempotent [of sample_frame] show ?thesis by simp
qed

end
